theory Spec2Isabelle
  imports Main "HOL-Library.Sublist"
begin

section \<open>Python strings\<close>

text \<open>
  A Python \<open>str\<close> is modelled as a list of code points of the Latin-1 range, one
  \<^typ>\<open>char\<close> per code point (\<open>of_char\<close> reads the code point). German umlauts are in
  that range: \<open>CHR 0xFC\<close> is u-umlaut. The character classes below are the ones that
  \<open>str.lower\<close>, \<open>str.strip\<close> and the \<open>re\<close> module use on such code points.
\<close>

definition cp :: "char \<Rightarrow> nat" where
  "cp c = of_char c"

definition is_digit :: "char \<Rightarrow> bool" where
  \<comment> \<open>\<open>\\d\<close>: the decimal digits; Latin-1 has no others.\<close>
  "is_digit c = (48 \<le> cp c \<and> cp c \<le> 57)"

definition is_word :: "char \<Rightarrow> bool" where
  \<comment> \<open>\<open>\\w\<close>: alphanumeric code points and the underscore.\<close>
  "is_word c =
     (let n = cp c in
      (48 \<le> n \<and> n \<le> 57) \<or> (65 \<le> n \<and> n \<le> 90) \<or> n = 95 \<or> (97 \<le> n \<and> n \<le> 122) \<or>
      n = 170 \<or> n = 178 \<or> n = 179 \<or> n = 181 \<or> n = 185 \<or> n = 186 \<or>
      n = 188 \<or> n = 189 \<or> n = 190 \<or>
      (192 \<le> n \<and> n \<le> 214) \<or> (216 \<le> n \<and> n \<le> 246) \<or> 248 \<le> n)"

definition is_space :: "char \<Rightarrow> bool" where
  \<comment> \<open>\<open>str.isspace\<close> on one code point.\<close>
  "is_space c =
     (let n = cp c in
      (9 \<le> n \<and> n \<le> 13) \<or> (28 \<le> n \<and> n \<le> 32) \<or> n = 133 \<or> n = 160)"

definition lower_char :: "char \<Rightarrow> char" where
  "lower_char c =
     (let n = cp c in
      if (65 \<le> n \<and> n \<le> 90) \<or> (192 \<le> n \<and> n \<le> 222 \<and> n \<noteq> 215)
      then char_of (n + 32) else c)"

definition lower :: "string \<Rightarrow> string" where
  "lower s = map lower_char s"

definition strip :: "string \<Rightarrow> string" where
  "strip s = rev (dropWhile is_space (rev (dropWhile is_space s)))"

fun contains :: "string \<Rightarrow> string \<Rightarrow> bool" where
  \<comment> \<open>\<open>sub in s\<close>\<close>
  "contains sub [] = (sub = [])"
| "contains sub (c # cs) = (prefix sub (c # cs) \<or> contains sub cs)"

definition zfill :: "nat \<Rightarrow> string \<Rightarrow> string" where
  \<comment> \<open>\<open>s.zfill(width)\<close>: zeros go after a leading sign.\<close>
  "zfill width s =
     (if width \<le> length s then s
      else case s of
        [] \<Rightarrow> replicate width (CHR ''0'')
      | c # cs \<Rightarrow>
          if c = CHR ''+'' \<or> c = CHR ''-''
          then c # replicate (width - length s) (CHR ''0'') @ cs
          else replicate (width - length s) (CHR ''0'') @ s)"

section \<open>Regular expression searches of the extractor\<close>

definition at_boundary :: "char option \<Rightarrow> string \<Rightarrow> bool" where
  \<comment> \<open>\<open>\\b\<close> between the previous character (if any) and the rest of the text.\<close>
  "at_boundary prev rest =
     ((case prev of None \<Rightarrow> False | Some c \<Rightarrow> is_word c) \<noteq>
      (case rest of [] \<Rightarrow> False | c # _ \<Rightarrow> is_word c))"

definition digits :: "nat \<Rightarrow> string \<Rightarrow> (string \<times> string) option" where
  \<comment> \<open>\<open>\\d{n}\<close> at the head of the text: the digits and what follows.\<close>
  "digits n s =
     (if n \<le> length s \<and> list_all is_digit (take n s) then Some (take n s, drop n s) else None)"

definition lit :: "char \<Rightarrow> string \<Rightarrow> string option" where
  "lit c s = (case s of [] \<Rightarrow> None | x # xs \<Rightarrow> if x = c then Some xs else None)"

fun first_some :: "'a option list \<Rightarrow> 'a option" where
  "first_some [] = None"
| "first_some (None # xs) = first_some xs"
| "first_some (Some x # _) = Some x"

definition date_try :: "nat \<Rightarrow> nat \<Rightarrow> string \<Rightarrow> (string \<times> string \<times> string) option" where
  \<comment> \<open>\<open>(\\d{i})\\.(\\d{j})\\.(\\d{4})\\b\<close> at the head of the text.\<close>
  "date_try i j s =
     (case digits i s of None \<Rightarrow> None | Some (d, r1) \<Rightarrow>
     (case lit (CHR ''.'') r1 of None \<Rightarrow> None | Some r2 \<Rightarrow>
     (case digits j r2 of None \<Rightarrow> None | Some (m, r3) \<Rightarrow>
     (case lit (CHR ''.'') r3 of None \<Rightarrow> None | Some r4 \<Rightarrow>
     (case digits 4 r4 of None \<Rightarrow> None | Some (y, r5) \<Rightarrow>
        if at_boundary (Some (last y)) r5 then Some (d, m, y) else None)))))"

definition match_date_at :: "char option \<Rightarrow> string \<Rightarrow> (string \<times> string \<times> string) option" where
  \<comment> \<open>\<open>\\b(\\d{1,2})\\.(\\d{1,2})\\.(\\d{4})\\b\<close> at one position; the greedy
      \<open>{1,2}\<close> tries two digits before one.\<close>
  "match_date_at prev s =
     (if at_boundary prev s
      then first_some [date_try 2 2 s, date_try 2 1 s, date_try 1 2 s, date_try 1 1 s]
      else None)"

fun search_date :: "char option \<Rightarrow> string \<Rightarrow> (string \<times> string \<times> string) option" where
  \<comment> \<open>\<open>re.search\<close>: the leftmost position that matches.\<close>
  "search_date prev [] = match_date_at prev []"
| "search_date prev (c # cs) =
     (case match_date_at prev (c # cs) of
        Some g \<Rightarrow> Some g
      | None \<Rightarrow> search_date (Some c) cs)"

definition time_try :: "nat \<Rightarrow> string \<Rightarrow> string option" where
  \<comment> \<open>\<open>(\\d{i}:\\d{2})\\b\<close> at the head of the text.\<close>
  "time_try i s =
     (case digits i s of None \<Rightarrow> None | Some (h, r1) \<Rightarrow>
     (case lit (CHR '':'') r1 of None \<Rightarrow> None | Some r2 \<Rightarrow>
     (case digits 2 r2 of None \<Rightarrow> None | Some (m, r3) \<Rightarrow>
        if at_boundary (Some (last m)) r3 then Some (h @ '':'' @ m) else None)))"

definition match_time_at :: "char option \<Rightarrow> string \<Rightarrow> string option" where
  \<comment> \<open>\<open>\\b(\\d{1,2}:\\d{2})\\b\<close> at one position.\<close>
  "match_time_at prev s =
     (if at_boundary prev s then first_some [time_try 2 s, time_try 1 s] else None)"

fun search_time :: "char option \<Rightarrow> string \<Rightarrow> string option" where
  "search_time prev [] = match_time_at prev []"
| "search_time prev (c # cs) =
     (case match_time_at prev (c # cs) of
        Some g \<Rightarrow> Some g
      | None \<Rightarrow> search_time (Some c) cs)"

definition parse_datetime_from_text :: "string \<Rightarrow> string option \<times> string option" where
  \<comment> \<open>\<open>AppointmentChecker._parse_datetime_from_text\<close>: the raw tokens, as found.\<close>
  "parse_datetime_from_text text =
     (if text = [] then (None, None)
      else
        (map_option (\<lambda>(d, m, y). d @ ''.'' @ m @ ''.'' @ y) (search_date None text),
         search_time None text))"

definition parse_german_date :: "string \<Rightarrow> string option" where
  \<comment> \<open>\<open>AppointmentChecker._parse_german_date\<close>\<close>
  "parse_german_date text =
     (if text = [] then None
      else case search_date None text of
        Some (d, m, y) \<Rightarrow> Some (y @ ''-'' @ zfill 2 m @ ''-'' @ zfill 2 d)
      | None \<Rightarrow> None)"

section \<open>Exceptions and results of the checker\<close>

datatype exc_class =
  PlaywrightTimeout | UnboundLocalError | OverflowError | IntegrityError
  | AttributeError | ValueError | TelegramError | DetachedInstanceError | OtherError

datatype exn = Exn exc_class string

fun exn_class :: "exn \<Rightarrow> exc_class" where
  "exn_class (Exn c _) = c"

fun exn_str :: "exn \<Rightarrow> string" where
  \<comment> \<open>\<open>str(e)\<close>\<close>
  "exn_str (Exn _ m) = m"

text \<open>
  A \<open>datetime\<close> is a count of microseconds, the resolution of Python's \<open>datetime\<close>;
  a \<open>timedelta\<close> is a difference of two such counts.
\<close>

type_synonym datetime = int

record AppointmentSlot =
  slot_date :: "string option"
  slot_time :: "string option"
  slot_location :: "string option"
  slot_raw_text :: string

record CheckResult =
  status :: string
  available :: bool
  appointments :: "AppointmentSlot list"
  screenshot_path :: "string option"
  error_message :: "string option"
  checked_at :: datetime
  service_name :: string
  category_name :: string

definition new_CheckResult ::
  "datetime \<Rightarrow> string \<Rightarrow> bool \<Rightarrow> AppointmentSlot list \<Rightarrow> string option \<Rightarrow> string option \<Rightarrow>
   string \<Rightarrow> string \<Rightarrow> CheckResult" where
  \<comment> \<open>The constructor with \<open>__post_init__\<close>: no caller passes \<open>checked_at\<close>, so it is
      the clock's reading \<open>now\<close> at construction (kept as a \<open>datetime\<close>; the source
      stores its \<open>isoformat\<close> and reads it back with \<open>fromisoformat\<close>).\<close>
  "new_CheckResult now st av apts shot err service category =
     \<lparr>status = st, available = av, appointments = apts, screenshot_path = shot,
      error_message = err, checked_at = now, service_name = service, category_name = category\<rparr>"

definition NO_APPOINTMENT_PATTERNS :: "string list" where
  "NO_APPOINTMENT_PATTERNS =
     [''Zurzeit sind keine Termine frei'',
      ''Zurzeit sind keine Termine verf'' @ [CHR 0xFC] @ ''gbar'',
      ''Leider sind derzeit keine Termine verf'' @ [CHR 0xFC] @ ''gbar'',
      ''Es sind zurzeit keine Termine verf'' @ [CHR 0xFC] @ ''gbar'',
      ''Aktuell sind keine Termine buchbar'',
      ''Keine Zeiten verf'' @ [CHR 0xFC] @ ''gbar'',
      ''keine freien Termine'']"

section \<open>The terminal page and the slot extractor\<close>

text \<open>
  The page is what the extractor reads through Playwright: the HTML of
  \<open>page.content()\<close>, the elements matching \<open>h3.ui-accordion-header\<close>, and for each
  panel the \<open>text_content()\<close> of the elements matching
  \<open>button.suggest_btn, td button\<close>. Every read may raise.
\<close>

type_synonym button = "exn + string option"

record header =
  h_text :: "exn + string option"
  h_aria_controls :: "exn + string option"
  h_sibling :: "exn + button list"

record page =
  content :: "exn + string"
  headers :: "exn + header list"
  panel :: "string \<Rightarrow> exn + button list"

fun truthy :: "string option \<Rightarrow> bool" where
  \<comment> \<open>Python's truth value of an optional string.\<close>
  "truthy None = False"
| "truthy (Some s) = (s \<noteq> [])"

fun time_loop ::
  "string \<Rightarrow> string \<Rightarrow> button list \<Rightarrow> AppointmentSlot list \<Rightarrow> AppointmentSlot list \<times> exn option" where
  \<comment> \<open>The loop over the time buttons of one panel; an exception leaves the loop with
      the slots appended so far.\<close>
  "time_loop date_text parsed_date [] acc = (acc, None)"
| "time_loop date_text parsed_date (b # bs) acc =
     (case b of
        Inl e \<Rightarrow> (acc, Some e)
      | Inr tc \<Rightarrow>
          if \<not> truthy tc then time_loop date_text parsed_date bs acc
          else
            let time_text = strip (case tc of Some t \<Rightarrow> t | None \<Rightarrow> []);
                parsed_time = snd (parse_datetime_from_text time_text)
            in if truthy parsed_time
               then time_loop date_text parsed_date bs
                      (acc @ [\<lparr>slot_date = Some parsed_date, slot_time = parsed_time,
                               slot_location = None,
                               slot_raw_text = date_text @ '' '' @ time_text\<rparr>])
               else time_loop date_text parsed_date bs acc)"

fun header_loop ::
  "page \<Rightarrow> header list \<Rightarrow> AppointmentSlot list \<Rightarrow> AppointmentSlot list \<times> exn option" where
  \<comment> \<open>The loop over the date headers.\<close>
  "header_loop pg [] acc = (acc, None)"
| "header_loop pg (h # hs) acc =
     (case h_text h of
        Inl e \<Rightarrow> (acc, Some e)
      | Inr tc \<Rightarrow>
          if \<not> truthy tc then header_loop pg hs acc
          else
            let date_text = strip (case tc of Some t \<Rightarrow> t | None \<Rightarrow> [])
            in (case parse_german_date date_text of
                  None \<Rightarrow> header_loop pg hs acc
                | Some parsed_date \<Rightarrow>
                    if parsed_date = [] then header_loop pg hs acc
                    else
                      (case h_aria_controls h of
                         Inl e \<Rightarrow> (acc, Some e)
                       | Inr panel_id \<Rightarrow>
                           (case (if truthy panel_id
                                  then panel pg (case panel_id of Some i \<Rightarrow> i | None \<Rightarrow> [])
                                  else h_sibling h) of
                              Inl e \<Rightarrow> (acc, Some e)
                            | Inr time_buttons \<Rightarrow>
                                (case time_loop date_text parsed_date time_buttons acc of
                                   (acc', Some e) \<Rightarrow> (acc', Some e)
                                 | (acc', None) \<Rightarrow> header_loop pg hs acc')))))"

definition extract_appointment_slots :: "page \<Rightarrow> AppointmentSlot list" where
  \<comment> \<open>\<open>AppointmentChecker._extract_appointment_slots\<close>: the \<open>except\<close> clause returns
      what was collected before the exception.\<close>
  "extract_appointment_slots pg =
     (case headers pg of
        Inl e \<Rightarrow> []
      | Inr hs \<Rightarrow> if length hs = 0 then [] else fst (header_loop pg hs []))"

fun no_appointment_match :: "string \<Rightarrow> string list \<Rightarrow> bool" where
  \<comment> \<open>The loop over the patterns, true when it returns from inside.\<close>
  "no_appointment_match html [] = False"
| "no_appointment_match html (pattern # ps) =
     (if contains (lower pattern) (lower html) then True else no_appointment_match html ps)"

definition detect_and_extract_appointments ::
  "datetime \<Rightarrow> page \<Rightarrow> string \<Rightarrow> string \<Rightarrow> exn + CheckResult" where
  \<comment> \<open>\<open>AppointmentChecker._detect_and_extract_appointments\<close>; \<open>now\<close> is the clock when
      the result is constructed.\<close>
  "detect_and_extract_appointments now pg service category =
     (case content pg of
        Inl e \<Rightarrow> Inl e
      | Inr html \<Rightarrow>
          if no_appointment_match html NO_APPOINTMENT_PATTERNS
          then Inr (new_CheckResult now ''no_appointments'' False [] None None service category)
          else
            let appointments = extract_appointment_slots pg
            in if appointments \<noteq> []
               then Inr (new_CheckResult now ''appointments_found'' True appointments None None
                           service category)
               else Inr (new_CheckResult now ''unknown'' False [] None
                           (Some ''Could not detect appointments or confirm unavailability'')
                           service category))"

section \<open>The probe: \<open>check_appointments\<close>\<close>

text \<open>
  What the browser does during one attempt is an input of the model: for each call into
  Playwright, whether it raises (and what), the terminal page the extractor reads, the
  clock's reading when the result object is constructed and the time stamp of the
  screenshot's file name. The steps of \<open>_navigate_to_service\<close> are one outcome: each
  of them re-raises what it catches.
\<close>

record session =
  launch :: "exn option"
  new_page :: "exn option"
  navigate :: "exn option"
  wait_idle :: "exn option"
  terminal :: page
  clock :: datetime
  screenshot :: "exn option"
  stamp :: string
  close :: "exn option"

text \<open>The local variables of \<open>check_appointments\<close> that its handlers read.\<close>

record locals =
  browser :: bool
  page_bound :: bool

definition save_screenshot :: "session \<Rightarrow> string \<Rightarrow> string" where
  \<comment> \<open>\<open>_save_screenshot\<close>, with the default \<open>screenshot_dir\<close>\<close>
  "save_screenshot s st =
     (case screenshot s of
        None \<Rightarrow> ''screenshots/'' @ st @ ''_'' @ stamp s @ ''.png''
      | Some e \<Rightarrow> [])"

definition save_error_screenshot :: "session \<Rightarrow> string \<Rightarrow> string option" where
  "save_error_screenshot s error_type = Some (save_screenshot s (''error_'' @ error_type))"

definition try_body :: "session \<Rightarrow> string \<Rightarrow> string \<Rightarrow> int \<Rightarrow> (exn + CheckResult) \<times> locals" where
  \<comment> \<open>The \<open>try\<close> block: what it returns or raises, and which locals are bound then.
      \<open>browser\<close> starts as \<open>None\<close>; \<open>page\<close> has no initial binding.\<close>
  "try_body s category service quantity =
     (case launch s of
        Some e \<Rightarrow> (Inl e, \<lparr>browser = False, page_bound = False\<rparr>)
      | None \<Rightarrow>
     (case new_page s of
        Some e \<Rightarrow> (Inl e, \<lparr>browser = True, page_bound = False\<rparr>)
      | None \<Rightarrow>
     (case navigate s of
        Some e \<Rightarrow> (Inl e, \<lparr>browser = True, page_bound = True\<rparr>)
      | None \<Rightarrow>
     (case wait_idle s of
        Some e \<Rightarrow> (Inl e, \<lparr>browser = True, page_bound = True\<rparr>)
      | None \<Rightarrow>
     (case detect_and_extract_appointments (clock s) (terminal s) service category of
        Inl e \<Rightarrow> (Inl e, \<lparr>browser = True, page_bound = True\<rparr>)
      | Inr result \<Rightarrow>
          (Inr (result\<lparr>screenshot_path := Some (save_screenshot s (status result))\<rparr>),
           \<lparr>browser = True, page_bound = True\<rparr>))))))"

definition unbound_page :: exn where
  "unbound_page =
     Exn UnboundLocalError
       (''cannot access local variable '' @ [CHR 0x27] @ ''page'' @ [CHR 0x27] @
        '' where it is not associated with a value'')"

definition handle_exception :: "session \<Rightarrow> string \<Rightarrow> string \<Rightarrow> exn \<Rightarrow> locals \<Rightarrow> exn + CheckResult" where
  \<comment> \<open>The two \<open>except\<close> clauses. Both evaluate \<open>page\<close> first; an exception raised here
      leaves the function.\<close>
  "handle_exception s category service e l =
     (if \<not> page_bound l then Inl unbound_page
      else if exn_class e = PlaywrightTimeout
      then Inr (new_CheckResult (clock s) ''error'' False []
                  (save_error_screenshot s ''timeout'') (Some (''Timeout: '' @ exn_str e))
                  service category)
      else Inr (new_CheckResult (clock s) ''error'' False []
                  (save_error_screenshot s ''error'') (Some (exn_str e))
                  service category))"

definition check_appointments ::
  "session \<Rightarrow> string \<Rightarrow> string \<Rightarrow> int \<Rightarrow> (exn + CheckResult) \<times> bool" where
  \<comment> \<open>\<open>AppointmentChecker.check_appointments\<close>: the outcome, and whether
      \<open>browser.close()\<close> was called. An exception of \<open>close\<close> in the \<open>finally\<close> clause
      replaces the outcome.\<close>
  "check_appointments s category service quantity =
     (let (r, l) = try_body s category service quantity;
          outcome = (case r of Inr result \<Rightarrow> Inr result
                     | Inl e \<Rightarrow> handle_exception s category service e l)
      in if browser l
         then (case close s of None \<Rightarrow> (outcome, True) | Some e \<Rightarrow> (Inl e, True))
         else (outcome, False))"

section \<open>The store\<close>

text \<open>
  The tables of \<open>models.py\<close> as lists of rows, in the order of insertion. Columns that
  no service function reads or writes (\<open>created_at\<close>, \<open>updated_at\<close>, \<open>last_status\<close>,
  \<open>consecutive_errors\<close> and the like) are left out.
\<close>

datatype CheckStatus = SUCCESS | NO_APPOINTMENTS | APPOINTMENTS_FOUND | ERROR | TIMEOUT | UNKNOWN

definition CheckStatus_of :: "string \<Rightarrow> exn + CheckStatus" where
  \<comment> \<open>\<open>CheckStatus(value)\<close>: lookup of the enumeration by value.\<close>
  "CheckStatus_of v =
     (if v = ''success'' then Inr SUCCESS
      else if v = ''no_appointments'' then Inr NO_APPOINTMENTS
      else if v = ''appointments_found'' then Inr APPOINTMENTS_FOUND
      else if v = ''error'' then Inr ERROR
      else if v = ''timeout'' then Inr TIMEOUT
      else if v = ''unknown'' then Inr UNKNOWN
      else Inl (Exn ValueError (v @ '' is not a valid CheckStatus'')))"

record User =
  user_id :: int
  telegram_id :: int

record Service =
  service_id :: int
  category :: string
  svc_name :: string
  base_url :: string
  total_checks :: int
  last_appointments_at :: "datetime option"

record Subscription =
  sub_id :: int
  sub_user_id :: int
  sub_service_id :: int
  active :: bool
  interval_hours :: int
  quantity :: int
  notify_telegram :: bool
  last_checked_at :: "datetime option"

record Check =
  check_id :: int
  check_subscription_id :: int
  check_status :: CheckStatus
  check_available :: bool
  appointment_count :: nat
  check_screenshot_path :: "string option"
  check_error_message :: "string option"
  check_checked_at :: datetime

record Appointment =
  apt_id :: int
  apt_check_id :: int
  appointment_date :: string
  appointment_time :: string
  apt_location :: string
  apt_raw_text :: string
  notified :: bool

text \<open>
  The rendered text of a notification is kept as the data it is formatted from: the
  chat it goes to, the service, the number of appointments, the listed (date, time)
  pairs and the number of those left out.
\<close>

record message =
  msg_chat_id :: int
  msg_service :: string
  msg_category :: string
  msg_found :: nat
  msg_slots :: "(string \<times> string) list"
  msg_more :: "nat option"
  msg_url :: string
  msg_checked_at :: datetime

record Notification =
  ntf_user_id :: int
  ntf_check_id :: int
  notification_type :: "string option"
  ntf_message :: "message option"
  sent_at :: datetime
  success :: bool
  ntf_error_message :: "string option"

record db =
  users :: "User list"
  services :: "Service list"
  subscriptions :: "Subscription list"
  checks :: "Check list"
  stored_appointments :: "Appointment list"
  notifications :: "Notification list"

definition next_id :: "int list \<Rightarrow> int" where
  \<comment> \<open>The key an integer primary key column gives a new row.\<close>
  "next_id ids = fold max ids 0 + 1"

section \<open>\<open>SubscriptionService\<close>\<close>

definition create_subscription ::
  "db \<Rightarrow> int \<Rightarrow> int \<Rightarrow> int \<Rightarrow> int \<Rightarrow> bool \<Rightarrow> Subscription option \<times> db" where
  \<comment> \<open>\<open>SubscriptionService.create_subscription\<close>: the returned row and the store.
      An insert whose user or service does not exist violates a foreign key; the
      \<open>except\<close> clause then returns \<open>None\<close> and the session is rolled back.\<close>
  "create_subscription d uid sid ih q nt =
     (case find (\<lambda>x. sub_user_id x = uid \<and> sub_service_id x = sid) (subscriptions d) of
        Some existing \<Rightarrow>
          let d' =
                (if \<not> active existing
                 then d\<lparr>subscriptions :=
                          map (\<lambda>x. if sub_id x = sub_id existing
                                    then x\<lparr>active := True, interval_hours := ih, quantity := q,
                                           notify_telegram := nt\<rparr>
                                    else x)
                            (subscriptions d)\<rparr>
                 else d)
          in (find (\<lambda>x. sub_id x = sub_id existing) (subscriptions d'), d')
      | None \<Rightarrow>
          if uid \<notin> set (map user_id (users d)) \<or> sid \<notin> set (map service_id (services d))
          then (None, d)
          else
            let subscription =
                  \<lparr>sub_id = next_id (map sub_id (subscriptions d)), sub_user_id = uid,
                   sub_service_id = sid, active = True, interval_hours = ih, quantity = q,
                   notify_telegram = nt, last_checked_at = None\<rparr>;
                d' = d\<lparr>subscriptions := subscriptions d @ [subscription]\<rparr>
            in (find (\<lambda>x. sub_id x = sub_id subscription) (subscriptions d'), d'))"

definition timedelta_hours :: "int \<Rightarrow> exn + int" where
  \<comment> \<open>\<open>timedelta(hours=h)\<close> in microseconds; a \<open>timedelta\<close> holds at most 999999999
      days in either direction.\<close>
  "timedelta_hours h =
     (if 999999999 < \<bar>h div 24\<bar>
      then Inl (Exn OverflowError ''days; must have magnitude <= 999999999'')
      else Inr (h * 3600000000))"

fun due_loop :: "datetime \<Rightarrow> Subscription list \<Rightarrow> Subscription list \<Rightarrow> exn + Subscription list" where
  "due_loop now [] due_subscriptions = Inr due_subscriptions"
| "due_loop now (sub # subs) due_subscriptions =
     (case last_checked_at sub of
        None \<Rightarrow> due_loop now subs (due_subscriptions @ [sub])
      | Some t \<Rightarrow>
          (case timedelta_hours (interval_hours sub) of
             Inl e \<Rightarrow> Inl e
           | Inr interval \<Rightarrow>
               if interval \<le> now - t
               then due_loop now subs (due_subscriptions @ [sub])
               else due_loop now subs due_subscriptions))"

definition get_subscriptions_due_for_check :: "datetime \<Rightarrow> db \<Rightarrow> exn + Subscription list" where
  \<comment> \<open>\<open>SubscriptionService.get_subscriptions_due_for_check\<close>; \<open>now\<close> is
      \<open>datetime.now()\<close>.\<close>
  "get_subscriptions_due_for_check now d = due_loop now (filter active (subscriptions d)) []"

section \<open>\<open>CheckService\<close>\<close>

definition or_empty :: "string option \<Rightarrow> string" where
  \<comment> \<open>\<open>x or ""\<close>\<close>
  "or_empty x = (case x of None \<Rightarrow> [] | Some v \<Rightarrow> v)"

fun add_appointments :: "int \<Rightarrow> AppointmentSlot list \<Rightarrow> Appointment list \<Rightarrow> Appointment list" where
  "add_appointments cid [] rows = rows"
| "add_appointments cid (apt_slot # slots) rows =
     add_appointments cid slots
       (rows @ [\<lparr>apt_id = next_id (map apt_id rows), apt_check_id = cid,
                 appointment_date = or_empty (slot_date apt_slot),
                 appointment_time = or_empty (slot_time apt_slot),
                 apt_location = or_empty (slot_location apt_slot),
                 apt_raw_text = slot_raw_text apt_slot, notified = False\<rparr>])"

definition run_check_body :: "session \<Rightarrow> db \<Rightarrow> Subscription \<Rightarrow> exn + Check \<times> db" where
  \<comment> \<open>The \<open>try\<close> block of \<open>run_subscription_check\<close> once the subscription is loaded:
      the committed store and the check, or the exception that rolls the session back.\<close>
  "run_check_body s d subscription =
     (case find (\<lambda>u. user_id u = sub_user_id subscription) (users d) of
        None \<Rightarrow> Inl (Exn AttributeError ''NoneType object has no attribute telegram_id'')
      | Some user \<Rightarrow>
     (case find (\<lambda>v. service_id v = sub_service_id subscription) (services d) of
        None \<Rightarrow> Inl (Exn AttributeError ''NoneType object has no attribute category'')
      | Some service \<Rightarrow>
     (case fst (check_appointments s (category service) (svc_name service)
                  (quantity subscription)) of
        Inl e \<Rightarrow> Inl e
      | Inr result \<Rightarrow>
     (case CheckStatus_of (status result) of
        Inl e \<Rightarrow> Inl e
      | Inr st \<Rightarrow>
          let check =
                \<lparr>check_id = next_id (map check_id (checks d)),
                 check_subscription_id = sub_id subscription, check_status = st,
                 check_available = available result,
                 appointment_count = length (appointments result),
                 check_screenshot_path = screenshot_path result,
                 check_error_message = error_message result,
                 check_checked_at = checked_at result\<rparr>;
              d1 = d\<lparr>checks := checks d @ [check]\<rparr>;
              d2 = d1\<lparr>stored_appointments :=
                        add_appointments (check_id check) (appointments result)
                          (stored_appointments d1)\<rparr>;
              d3 = d2\<lparr>subscriptions :=
                        map (\<lambda>x. if sub_id x = sub_id subscription
                                  then x\<lparr>last_checked_at := Some (check_checked_at check)\<rparr>
                                  else x)
                          (subscriptions d2)\<rparr>;
              d4 = d3\<lparr>services :=
                        map (\<lambda>v. if service_id v = service_id service
                                  then v\<lparr>total_checks := total_checks v + 1,
                                         last_appointments_at :=
                                           (if available result
                                            then Some (check_checked_at check)
                                            else last_appointments_at v)\<rparr>
                                  else v)
                          (services d3)\<rparr>
          in Inr (check, d4)))))"

definition save_error_state :: "datetime \<Rightarrow> db \<Rightarrow> int \<Rightarrow> exn \<Rightarrow> Check option \<times> db" where
  \<comment> \<open>The \<open>except\<close> clause of \<open>run_subscription_check\<close>: an \<open>ERROR\<close> check is stored;
      the subscription row is not written.\<close>
  "save_error_state err_now d subscription_id e =
     (if subscription_id \<notin> set (map sub_id (subscriptions d)) then (None, d)
      else
        let check =
              \<lparr>check_id = next_id (map check_id (checks d)),
               check_subscription_id = subscription_id, check_status = ERROR,
               check_available = False, appointment_count = 0,
               check_screenshot_path = None, check_error_message = Some (exn_str e),
               check_checked_at = err_now\<rparr>
        in (Some check, d\<lparr>checks := checks d @ [check]\<rparr>))"

definition run_subscription_check ::
  "session \<Rightarrow> datetime \<Rightarrow> db \<Rightarrow> int \<Rightarrow> Check option \<times> db" where
  \<comment> \<open>\<open>CheckService.run_subscription_check\<close>; \<open>err_now\<close> is \<open>datetime.now()\<close> in the
      \<open>except\<close> clause.\<close>
  "run_subscription_check s err_now d subscription_id =
     (case find (\<lambda>x. sub_id x = subscription_id \<and> active x) (subscriptions d) of
        None \<Rightarrow> (None, d)
      | Some subscription \<Rightarrow>
          (case run_check_body s d subscription of
             Inr (check, d') \<Rightarrow> (Some check, d')
           | Inl e \<Rightarrow> save_error_state err_now d subscription_id e))"

section \<open>\<open>SchedulerService\<close>\<close>

record probe_env =
  pe_session :: session
  pe_err_now :: datetime

text \<open>
  A row as the caller of a service function holds it. \<open>Database.get_session\<close> commits
  and closes the session when its block is left, and the session factory keeps
  \<open>expire_on_commit\<close> at its default: a row returned from inside the block is
  expired and detached, and reading an attribute of it raises. A row read while its
  session is open is \<open>Live\<close>.
\<close>

datatype 'a orm_row = Live 'a | Detached 'a

definition detached_error :: exn where
  "detached_error =
     Exn DetachedInstanceError
       ''Instance is not bound to a Session; attribute refresh operation cannot proceed''"

fun read_attr :: "('a \<Rightarrow> 'b) \<Rightarrow> 'a orm_row \<Rightarrow> exn + 'b" where
  \<comment> \<open>Reading one attribute.\<close>
  "read_attr f (Live x) = Inr (f x)"
| "read_attr f (Detached x) = Inl detached_error"

fun check_loop ::
  "(int \<Rightarrow> probe_env) \<Rightarrow> Subscription orm_row list \<Rightarrow> db \<Rightarrow> int list \<Rightarrow>
   db \<times> int list \<times> exn option" where
  \<comment> \<open>The loop of \<open>_check_all_due_subscriptions\<close>: the store, the ids it has called
      \<open>run_subscription_check\<close> for, and the exception that left the loop, if one did.
      The \<open>try\<close> block reads \<open>subscription.id\<close> first, for its log line; the \<open>except\<close>
      clause reads it again for its own, and what that read raises leaves the loop. After
      the call the \<open>try\<close> block only logs, and \<open>run_subscription_check\<close> returns on
      every path.\<close>
  "check_loop env [] d probed = (d, probed, None)"
| "check_loop env (subscription # rest) d probed =
     (case read_attr sub_id subscription of
        Inr i \<Rightarrow>
          (let (check, d') =
                 run_subscription_check (pe_session (env i)) (pe_err_now (env i)) d i
           in check_loop env rest d' (probed @ [i]))
      | Inl e \<Rightarrow>
          (case read_attr sub_id subscription of
             Inr i \<Rightarrow> check_loop env rest d probed
           | Inl e' \<Rightarrow> (d, probed, Some e')))"

definition check_all_due_subscriptions :: "datetime \<Rightarrow> (int \<Rightarrow> probe_env) \<Rightarrow> db \<Rightarrow> db \<times> int list" where
  \<comment> \<open>\<open>SchedulerService._check_all_due_subscriptions\<close>: one tick. \<open>env\<close> gives, for the
      probe of each subscription, what the browser and the clock do. The due rows come
      out of the session of \<open>get_subscriptions_due_for_check\<close>; an exception that
      leaves the loop is logged by the outer \<open>except\<close> clause.\<close>
  "check_all_due_subscriptions now env d =
     (case get_subscriptions_due_for_check now d of
        Inl e \<Rightarrow> (d, [])
      | Inr due \<Rightarrow>
          (let due_subscriptions = map Detached due
           in if due_subscriptions = [] then (d, [])
              else (let (d', probed, e) = check_loop env due_subscriptions d []
                    in (d', probed))))"

section \<open>\<open>NotificationService\<close>\<close>




section \<open>Specification predicates and example inputs\<close>

text \<open>
  The date token of the specification: one or two digits, a dot, one or two digits, a
  dot and four digits, not adjoining a word character on either side.
\<close>

definition is_date_token :: "string \<Rightarrow> string \<Rightarrow> string \<Rightarrow> bool" where
  "is_date_token d m y =
     ((length d = 1 \<or> length d = 2) \<and> (length m = 1 \<or> length m = 2) \<and> length y = 4 \<and>
      list_all is_digit d \<and> list_all is_digit m \<and> list_all is_digit y)"

definition has_date_pattern :: "string \<Rightarrow> bool" where
  "has_date_pattern text =
     (\<exists>pre d m y post.
        text = pre @ d @ ''.'' @ m @ ''.'' @ y @ post \<and> is_date_token d m y \<and>
        (pre = [] \<or> \<not> is_word (last pre)) \<and> (post = [] \<or> \<not> is_word (hd post)))"

fun boundary_before :: "char option \<Rightarrow> string \<Rightarrow> bool" where
  \<comment> \<open>No word character stands right before the position that follows \<open>pre\<close>.\<close>
  "boundary_before prev [] = (case prev of None \<Rightarrow> True | Some p \<Rightarrow> \<not> is_word p)"
| "boundary_before prev (c # cs) = boundary_before (Some c) cs"

definition stale_html :: string where
  "stale_html = ''<p>Zurzeit sind keine Termine frei</p><h3>Montag, 01.01.2030</h3>''"

definition stale_page :: page where
  \<comment> \<open>A negative phrase next to a stray date header with a time button.\<close>
  "stale_page =
     \<lparr>content = Inr stale_html,
      headers = Inr [\<lparr>h_text = Inr (Some ''Montag, 01.01.2030''),
                      h_aria_controls = Inr None,
                      h_sibling = Inr [Inr (Some ''10:00'')]\<rparr>],
      panel = (\<lambda>i. Inr [])\<rparr>"

definition bare_page :: page where
  \<comment> \<open>No negative phrase and no date header.\<close>
  "bare_page = \<lparr>content = Inr ''<html><body></body></html>'', headers = Inr [], panel = (\<lambda>i. Inr [])\<rparr>"

definition morning_page :: page where
  \<comment> \<open>One date header whose panel offers 9:05 and 14:30.\<close>
  "morning_page =
     \<lparr>content = Inr ''<h3>Dienstag, 18.11.2025</h3>'',
      headers = Inr [\<lparr>h_text = Inr (Some ''Dienstag, 18.11.2025''),
                      h_aria_controls = Inr (Some ''ui-id-2''),
                      h_sibling = Inr []\<rparr>],
      panel = (\<lambda>i. if i = ''ui-id-2''
                    then Inr [Inr (Some ''9:05''), Inr (Some ''14:30 Uhr''), Inr (Some ''Uhr'')]
                    else Inr [])\<rparr>"

definition undated_header :: header where
  "undated_header =
     \<lparr>h_text = Inr (Some ''Heute''), h_aria_controls = Inr None,
      h_sibling = Inr [Inr (Some ''10:00'')]\<rparr>"

text \<open>The due check of the specification, in microseconds.\<close>

definition hours :: "int \<Rightarrow> int" where
  \<comment> \<open>The microseconds of \<open>h\<close> hours.\<close>
  "hours h = h * 3600000000"

definition representable :: "int \<Rightarrow> bool" where
  \<comment> \<open>\<open>timedelta(hours=h)\<close> exists.\<close>
  "representable h = (\<bar>h div 24\<bar> \<le> 999999999)"

definition is_due :: "datetime \<Rightarrow> Subscription \<Rightarrow> bool" where
  "is_due now s =
     (last_checked_at s = None \<or> (\<exists>t. last_checked_at s = Some t \<and> hours (interval_hours s) \<le> now - t))"

definition watch :: "int \<Rightarrow> bool \<Rightarrow> int \<Rightarrow> datetime option \<Rightarrow> Subscription" where
  "watch i a ih lc =
     \<lparr>sub_id = i, sub_user_id = 1, sub_service_id = i, active = a, interval_hours = ih,
      quantity = 1, notify_telegram = True, last_checked_at = lc\<rparr>"

definition due_db :: db where
  "due_db =
     \<lparr>users = [\<lparr>user_id = 1, telegram_id = 4711\<rparr>], services = [],
      subscriptions =
        [watch 1 True 1 None,
         watch 2 True 1 (Some (7200000000 - 3600000000)),
         watch 3 True 1 (Some (7200000000 - 3600000000 + 1)),
         watch 4 False 1 None],
      checks = [], stored_appointments = [], notifications = []\<rparr>"

text \<open>The key of the unique constraint \<open>uix_user_service\<close>, and a reactivated row.\<close>

definition watch_key :: "Subscription \<Rightarrow> int \<times> int" where
  "watch_key s = (sub_user_id s, sub_service_id s)"

definition reactivated :: "int \<Rightarrow> int \<Rightarrow> bool \<Rightarrow> Subscription \<Rightarrow> Subscription" where
  "reactivated ih q nt e = e\<lparr>active := True, interval_hours := ih, quantity := q, notify_telegram := nt\<rparr>"

definition two_watch_db :: db where
  "two_watch_db =
     \<lparr>users = [\<lparr>user_id = 1, telegram_id = 4711\<rparr>],
      services =
        [\<lparr>service_id = 1, category = ''Abholung'', svc_name = ''Abholung F'', base_url = ''u'',
          total_checks = 0, last_appointments_at = None\<rparr>,
         \<lparr>service_id = 2, category = ''Umschreibung'', svc_name = ''Umschreibung F'', base_url = ''u'',
          total_checks = 0, last_appointments_at = None\<rparr>],
      subscriptions = [watch 1 True 1 None, watch 2 False 1 None],
      checks = [], stored_appointments = [], notifications = []\<rparr>"

text \<open>Example attempts, stores and notifications.\<close>

definition smooth_session :: "page \<Rightarrow> datetime \<Rightarrow> session" where
  \<comment> \<open>An attempt in which no call raises.\<close>
  "smooth_session pg t =
     \<lparr>launch = None, new_page = None, navigate = None, wait_idle = None, terminal = pg,
      clock = t, screenshot = None, stamp = ''20251118_140000'', close = None\<rparr>"

definition launch_error :: exn where
  "launch_error = Exn OtherError ''BrowserType.launch: Executable does not exist''"

definition navigation_timeout :: exn where
  "navigation_timeout = Exn PlaywrightTimeout ''Locator.click: Timeout 10000ms exceeded.''"

definition hourly_db :: db where
  \<comment> \<open>One active hourly subscription, last checked at time 0.\<close>
  "hourly_db = two_watch_db\<lparr>subscriptions := [watch 1 True 1 (Some 0)]\<rparr>"

definition is_active_in :: "db \<Rightarrow> int \<Rightarrow> bool" where
  \<comment> \<open>Some row of the store has this id and is active.\<close>
  "is_active_in d i =
     ((i, True) \<in> set (zip (map sub_id (subscriptions d)) (map active (subscriptions d))))"

definition three_db :: db where
  \<comment> \<open>Three active subscriptions that were never checked.\<close>
  "three_db =
     two_watch_db\<lparr>subscriptions :=
       [watch 1 True 1 None, watch 2 True 1 None,
        \<lparr>sub_id = 3, sub_user_id = 1, sub_service_id = 1, active = True, interval_hours = 2,
         quantity = 1, notify_telegram = True, last_checked_at = None\<rparr>]\<rparr>"

definition tick_env :: "int \<Rightarrow> probe_env" where
  \<comment> \<open>The probe of subscription 2 raises during navigation; the others run through.\<close>
  "tick_env i =
     \<lparr>pe_session =
        (if i = 2 then (smooth_session bare_page 20)\<lparr>navigate := Some navigation_timeout\<rparr>
         else if i = 1 then smooth_session stale_page 10
         else smooth_session morning_page 30),
      pe_err_now = 99\<rparr>"




section \<open>The extractor's verdict\<close>

lemma no_appointment_match_iff:
  "no_appointment_match html ps \<longleftrightarrow> (\<exists>p \<in> set ps. contains (lower p) (lower html))"
  by (induction ps) auto

text \<open>
  Claim C2. When the HTML of the terminal page contains one of the configured
  ``no appointments'' phrases, compared in lower case, the extractor returns the
  \<open>no_appointments\<close> result with an empty slot list. The result is the same whatever
  date headers and panels the page has: they are not read.
\<close>

theorem negative_phrase_takes_precedence:
  assumes "content pg = Inr html"
    and "\<exists>p \<in> set NO_APPOINTMENT_PATTERNS. contains (lower p) (lower html)"
  shows "detect_and_extract_appointments now pg svc cat =
           Inr \<lparr>status = ''no_appointments'', available = False, appointments = [],
                screenshot_path = None, error_message = None, checked_at = now,
                service_name = svc, category_name = cat\<rparr> \<and>
         detect_and_extract_appointments now (pg\<lparr>headers := hs, panel := ps\<rparr>) svc cat =
           detect_and_extract_appointments now pg svc cat"
  using assms
  by (simp add: detect_and_extract_appointments_def no_appointment_match_iff new_CheckResult_def)

text \<open>
  The specification's example: the phrase ``Zurzeit sind keine Termine frei'' next to a
  stray header ``Montag, 01.01.2030'', whose panel alone would yield a slot.
\<close>

theorem negative_phrase_takes_precedence_witness:
  "extract_appointment_slots stale_page \<noteq> [] \<and>
   detect_and_extract_appointments 0 stale_page ''Abholung'' ''Kategorie'' =
     Inr \<lparr>status = ''no_appointments'', available = False, appointments = [],
          screenshot_path = None, error_message = None, checked_at = 0,
          service_name = ''Abholung'', category_name = ''Kategorie''\<rparr> \<and>
   detect_and_extract_appointments 0 (stale_page\<lparr>headers := Inr [], panel := (\<lambda>i. Inr [])\<rparr>)
       ''Abholung'' ''Kategorie'' =
     detect_and_extract_appointments 0 stale_page ''Abholung'' ''Kategorie''"
proof -
  have c: "content stale_page = Inr stale_html"
    by (simp add: stale_page_def)
  have "contains (lower ''Zurzeit sind keine Termine frei'') (lower stale_html)"
    by code_simp
  then have m: "\<exists>p \<in> set NO_APPOINTMENT_PATTERNS. contains (lower p) (lower stale_html)"
    by (simp add: NO_APPOINTMENT_PATTERNS_def)
  have e: "extract_appointment_slots stale_page \<noteq> []"
    by code_simp
  from negative_phrase_takes_precedence [OF c m] e show ?thesis
    by simp
qed

text \<open>
  Claim C6. When no configured phrase matches and the page has no date header, the
  result has status \<open>unknown\<close>, which the store records as \<open>UNKNOWN\<close>, a value
  different from the \<open>NO_APPOINTMENTS\<close> recorded for \<open>no_appointments\<close>.
\<close>

theorem zero_headers_is_indeterminate:
  assumes "content pg = Inr html"
    and "\<not> (\<exists>p \<in> set NO_APPOINTMENT_PATTERNS. contains (lower p) (lower html))"
    and "headers pg = Inr []"
  shows "detect_and_extract_appointments now pg svc cat =
           Inr \<lparr>status = ''unknown'', available = False, appointments = [],
                screenshot_path = None,
                error_message = Some ''Could not detect appointments or confirm unavailability'',
                checked_at = now, service_name = svc, category_name = cat\<rparr> \<and>
         CheckStatus_of ''unknown'' = Inr UNKNOWN \<and>
         CheckStatus_of ''no_appointments'' = Inr NO_APPOINTMENTS \<and>
         UNKNOWN \<noteq> NO_APPOINTMENTS"
  using assms
  by (simp add: detect_and_extract_appointments_def no_appointment_match_iff new_CheckResult_def
      extract_appointment_slots_def CheckStatus_of_def)

theorem zero_headers_is_indeterminate_witness:
  "detect_and_extract_appointments 7 bare_page ''Abholung'' ''Kategorie'' =
     Inr \<lparr>status = ''unknown'', available = False, appointments = [],
          screenshot_path = None,
          error_message = Some ''Could not detect appointments or confirm unavailability'',
          checked_at = 7, service_name = ''Abholung'', category_name = ''Kategorie''\<rparr> \<and>
   CheckStatus_of ''unknown'' = Inr UNKNOWN \<and>
   CheckStatus_of ''no_appointments'' = Inr NO_APPOINTMENTS \<and>
   UNKNOWN \<noteq> NO_APPOINTMENTS"
proof -
  have c: "content bare_page = Inr ''<html><body></body></html>''"
    by (simp add: bare_page_def)
  have "\<not> no_appointment_match ''<html><body></body></html>'' NO_APPOINTMENT_PATTERNS"
    by code_simp
  then have m: "\<not> (\<exists>p \<in> set NO_APPOINTMENT_PATTERNS.
                 contains (lower p) (lower ''<html><body></body></html>''))"
    unfolding no_appointment_match_iff .
  have h: "headers bare_page = Inr []"
    by (simp add: bare_page_def)
  from zero_headers_is_indeterminate [OF c m h] show ?thesis .
qed

section \<open>Time tokens\<close>

text \<open>
  Claim C4. The time parser returns the token as it stands in the text: \<open>14:30 Uhr\<close>
  gives \<open>14:30\<close>, but \<open>9:05\<close> gives \<open>9:05\<close>, with no zero put before the single-digit
  hour, and that is the time of the slot the extractor emits. A button without a time
  token (\<open>Uhr\<close>) emits no slot.
\<close>

theorem time_token_is_not_padded:
  "parse_datetime_from_text ''9:05'' = (None, Some ''9:05'') \<and>
   parse_datetime_from_text ''14:30 Uhr'' = (None, Some ''14:30'') \<and>
   parse_datetime_from_text ''Uhr'' = (None, None) \<and>
   extract_appointment_slots morning_page =
     [\<lparr>slot_date = Some ''2025-11-18'', slot_time = Some ''9:05'', slot_location = None,
       slot_raw_text = ''Dienstag, 18.11.2025 9:05''\<rparr>,
      \<lparr>slot_date = Some ''2025-11-18'', slot_time = Some ''14:30'', slot_location = None,
       slot_raw_text = ''Dienstag, 18.11.2025 14:30 Uhr''\<rparr>]"
  by code_simp

section \<open>Date parsing\<close>

text \<open>Each step of the search returns what it consumed, and accepts a token that is there.\<close>

lemma digit_is_word: "is_digit c \<Longrightarrow> is_word c"
  by (simp add: is_digit_def is_word_def Let_def)

lemma dot_not_digit [simp]: "\<not> is_digit (CHR ''.'')"
  by (simp add: is_digit_def cp_def)

lemma colon_not_digit [simp]: "\<not> is_digit (CHR '':'')"
  by (simp add: is_digit_def cp_def)

lemma digits_SomeD:
  "digits n s = Some (a, r) \<Longrightarrow> s = a @ r \<and> length a = n \<and> list_all is_digit a"
  by (auto simp: digits_def split: if_splits)

lemma digits_append:
  "list_all is_digit a \<Longrightarrow> digits (length a) (a @ r) = Some (a, r)"
  by (simp add: digits_def)

lemma lit_SomeD: "lit c s = Some r \<Longrightarrow> s = c # r"
  by (auto simp: lit_def split: list.splits if_splits)

lemma lit_Cons [simp]: "lit c (c # r) = Some r"
  by (simp add: lit_def)

lemma boundary_after_digit:
  "is_digit c \<Longrightarrow> at_boundary (Some c) post \<longleftrightarrow> (post = [] \<or> \<not> is_word (hd post))"
  by (cases post) (auto simp: at_boundary_def dest: digit_is_word)

lemma boundary_before_digit:
  "is_digit c \<Longrightarrow> at_boundary prev (c # s) \<longleftrightarrow> (case prev of None \<Rightarrow> True | Some p \<Rightarrow> \<not> is_word p)"
  by (cases prev) (auto simp: at_boundary_def dest: digit_is_word)

lemma date_try_SomeD:
  assumes "date_try i j s = Some (d, m, y)"
  shows "\<exists>post. s = d @ ''.'' @ m @ ''.'' @ y @ post \<and> length d = i \<and> length m = j \<and>
           length y = 4 \<and> list_all is_digit d \<and> list_all is_digit m \<and> list_all is_digit y \<and>
           (post = [] \<or> \<not> is_word (hd post))"
proof -
  from assms obtain r1 r2 r3 r4 r5 where
    a: "digits i s = Some (d, r1)" and b: "lit (CHR ''.'') r1 = Some r2" and
    c: "digits j r2 = Some (m, r3)" and e: "lit (CHR ''.'') r3 = Some r4" and
    f: "digits 4 r4 = Some (y, r5)" and g: "at_boundary (Some (last y)) r5"
    by (auto simp: date_try_def split: option.splits if_splits)
  from f have y: "r4 = y @ r5" "length y = 4" "list_all is_digit y"
    using digits_SomeD by blast+
  then have "y \<noteq> []" by auto
  with y have "is_digit (last y)" by (simp add: list_all_iff)
  with g have h: "r5 = [] \<or> \<not> is_word (hd r5)" by (simp add: boundary_after_digit)
  from a b c e y h show ?thesis
    by (auto dest!: digits_SomeD lit_SomeD)
qed

lemma date_try_token:
  assumes "list_all is_digit d" "list_all is_digit m" "list_all is_digit y" "length y = 4"
    and "post = [] \<or> \<not> is_word (hd post)"
  shows "date_try (length d) (length m) (d @ ''.'' @ m @ ''.'' @ y @ post) = Some (d, m, y)"
proof -
  from assms have "y \<noteq> []" by auto
  with assms have "is_digit (last y)" by (simp add: list_all_iff)
  with assms have g: "at_boundary (Some (last y)) post" by (simp add: boundary_after_digit)
  have f: "digits 4 (y @ post) = Some (y, post)"
    using digits_append [of y post] assms by simp
  show ?thesis
    using assms g f by (simp add: date_try_def digits_append)
qed

lemma first_some_SomeD: "first_some xs = Some x \<Longrightarrow> Some x \<in> set xs"
  by (induction xs rule: first_some.induct) auto

lemma first_some_mem: "Some x \<in> set xs \<Longrightarrow> first_some xs \<noteq> None"
  by (induction xs rule: first_some.induct) auto

lemma match_date_at_SomeD:
  assumes "match_date_at prev s = Some (d, m, y)"
  shows "at_boundary prev s \<and>
         (\<exists>post. s = d @ ''.'' @ m @ ''.'' @ y @ post \<and> is_date_token d m y \<and>
            (post = [] \<or> \<not> is_word (hd post)))"
proof -
  from assms have b: "at_boundary prev s"
    by (simp add: match_date_at_def split: if_splits)
  with assms have "Some (d, m, y) \<in> set [date_try 2 2 s, date_try 2 1 s, date_try 1 2 s, date_try 1 1 s]"
    by (auto simp: match_date_at_def dest: first_some_SomeD)
  then consider "date_try 2 2 s = Some (d, m, y)" | "date_try 2 1 s = Some (d, m, y)"
    | "date_try 1 2 s = Some (d, m, y)" | "date_try 1 1 s = Some (d, m, y)"
    by auto
  then have "\<exists>post. s = d @ ''.'' @ m @ ''.'' @ y @ post \<and> is_date_token d m y \<and>
            (post = [] \<or> \<not> is_word (hd post))"
    by cases (auto dest!: date_try_SomeD simp: is_date_token_def)
  with b show ?thesis by simp
qed

lemma match_date_at_token:
  assumes "is_date_token d m y" "post = [] \<or> \<not> is_word (hd post)"
    and "at_boundary prev (d @ ''.'' @ m @ ''.'' @ y @ post)"
  shows "match_date_at prev (d @ ''.'' @ m @ ''.'' @ y @ post) \<noteq> None"
proof -
  let ?s = "d @ ''.'' @ m @ ''.'' @ y @ post"
  from assms have t: "date_try (length d) (length m) ?s = Some (d, m, y)"
    by (intro date_try_token) (auto simp: is_date_token_def)
  from assms(1) have "(length d = 1 \<or> length d = 2) \<and> (length m = 1 \<or> length m = 2)"
    by (simp add: is_date_token_def)
  with t have "Some (d, m, y) \<in> set [date_try 2 2 ?s, date_try 2 1 ?s, date_try 1 2 ?s, date_try 1 1 ?s]"
    by auto
  then have "first_some [date_try 2 2 ?s, date_try 2 1 ?s, date_try 1 2 ?s, date_try 1 1 ?s] \<noteq> None"
    by (rule first_some_mem)
  with assms(3) show ?thesis
    unfolding match_date_at_def by simp
qed


lemma boundary_before_None: "boundary_before None pre \<longleftrightarrow> (pre = [] \<or> \<not> is_word (last pre))"
proof -
  have "boundary_before prev pre \<longleftrightarrow>
        (if pre = [] then (case prev of None \<Rightarrow> True | Some p \<Rightarrow> \<not> is_word p)
         else \<not> is_word (last pre))" for prev
    by (induction pre arbitrary: prev) auto
  then show ?thesis by simp
qed

lemma token_starts_with_digit:
  assumes "is_date_token d m y"
  shows "\<exists>c cs. d = c # cs \<and> is_digit c"
  using assms by (cases d) (auto simp: is_date_token_def)

lemma search_date_SomeD:
  "search_date prev s = Some (d, m, y) \<Longrightarrow>
     \<exists>pre post. s = pre @ d @ ''.'' @ m @ ''.'' @ y @ post \<and> is_date_token d m y \<and>
        boundary_before prev pre \<and> (post = [] \<or> \<not> is_word (hd post))"
proof (induction s arbitrary: prev)
  case Nil
  then have "match_date_at prev [] = Some (d, m, y)" by simp
  from match_date_at_SomeD [OF this] show ?case by simp
next
  case (Cons c cs)
  show ?case
  proof (cases "match_date_at prev (c # cs)")
    case None
    with Cons.prems have "search_date (Some c) cs = Some (d, m, y)" by simp
    from Cons.IH [OF this] obtain pre post where
      "cs = pre @ d @ ''.'' @ m @ ''.'' @ y @ post" "is_date_token d m y"
      "boundary_before (Some c) pre" "post = [] \<or> \<not> is_word (hd post)"
      by blast
    then have "c # cs = (c # pre) @ d @ ''.'' @ m @ ''.'' @ y @ post \<and> is_date_token d m y \<and>
        boundary_before prev (c # pre) \<and> (post = [] \<or> \<not> is_word (hd post))"
      by simp
    then show ?thesis by blast
  next
    case (Some g)
    with Cons.prems have g: "match_date_at prev (c # cs) = Some (d, m, y)" by simp
    from match_date_at_SomeD [OF g] obtain post where
      p: "at_boundary prev (c # cs)" "c # cs = d @ ''.'' @ m @ ''.'' @ y @ post"
         "is_date_token d m y" "post = [] \<or> \<not> is_word (hd post)"
      by blast
    from token_starts_with_digit [OF p(3)] p(2) have "is_digit c" by auto
    with p(1) have "boundary_before prev []" by (simp add: boundary_before_digit)
    with p have "c # cs = [] @ d @ ''.'' @ m @ ''.'' @ y @ post \<and> is_date_token d m y \<and>
        boundary_before prev [] \<and> (post = [] \<or> \<not> is_word (hd post))"
      by simp
    then show ?thesis by blast
  qed
qed

lemma search_date_complete:
  assumes "is_date_token d m y" "post = [] \<or> \<not> is_word (hd post)"
  shows "boundary_before prev pre \<Longrightarrow>
         search_date prev (pre @ d @ ''.'' @ m @ ''.'' @ y @ post) \<noteq> None"
proof (induction pre arbitrary: prev)
  case Nil
  from token_starts_with_digit [OF assms(1)] obtain c cs where d: "d = c # cs" "is_digit c"
    by blast
  with Nil have "at_boundary prev (d @ ''.'' @ m @ ''.'' @ y @ post)"
    by (simp add: boundary_before_digit)
  from match_date_at_token [OF assms this] show ?case
    by (auto simp: d)
next
  case (Cons c pre)
  then have "search_date (Some c) (pre @ d @ ''.'' @ m @ ''.'' @ y @ post) \<noteq> None" by simp
  then show ?case by (auto split: option.splits)
qed

lemma digits_then_dot_unique:
  assumes "a @ CHR ''.'' # r = a' @ CHR ''.'' # r'" "list_all is_digit a" "list_all is_digit a'"
  shows "a = a' \<and> r = r'"
proof -
  have "takeWhile is_digit (a @ CHR ''.'' # r) = a" "takeWhile is_digit (a' @ CHR ''.'' # r') = a'"
    using assms(2,3) by (simp_all add: list_all_iff)
  with assms(1) have "a = a'" by simp
  with assms(1) show ?thesis by simp
qed

lemma token_unique:
  assumes "d @ ''.'' @ m @ ''.'' @ y @ post = d' @ ''.'' @ m' @ ''.'' @ y' @ post'"
    and "is_date_token d m y" "is_date_token d' m' y'"
  shows "d = d' \<and> m = m' \<and> y = y'"
proof -
  from assms have a: "d = d' \<and> m @ ''.'' @ y @ post = m' @ ''.'' @ y' @ post'"
    using digits_then_dot_unique [of d "m @ ''.'' @ y @ post" d' "m' @ ''.'' @ y' @ post'"]
    by (simp add: is_date_token_def)
  with assms have b: "m = m' \<and> y @ post = y' @ post'"
    using digits_then_dot_unique [of m "y @ post" m' "y' @ post'"]
    by (simp add: is_date_token_def)
  from assms(2,3) have "length y = length y'" by (simp add: is_date_token_def)
  with a b show ?thesis by simp
qed

lemma search_date_weekday_prefix:
  assumes "is_date_token d m y" "post = [] \<or> \<not> is_word (hd post)"
  shows "list_all (\<lambda>c. \<not> is_digit c) w \<Longrightarrow> boundary_before prev w \<Longrightarrow>
         search_date prev (w @ d @ ''.'' @ m @ ''.'' @ y @ post) = Some (d, m, y)"
proof (induction w arbitrary: prev)
  case Nil
  from token_starts_with_digit [OF assms(1)] obtain c cs where d: "d = c # cs" "is_digit c"
    by blast
  with Nil have "at_boundary prev (d @ ''.'' @ m @ ''.'' @ y @ post)"
    by (simp add: boundary_before_digit)
  from match_date_at_token [OF assms this] obtain d' m' y' where
    g: "match_date_at prev (d @ ''.'' @ m @ ''.'' @ y @ post) = Some (d', m', y')"
    by auto
  then have s: "search_date prev (d @ ''.'' @ m @ ''.'' @ y @ post) = Some (d', m', y')"
    by (simp add: d)
  from match_date_at_SomeD [OF g] obtain post' where
    "d @ ''.'' @ m @ ''.'' @ y @ post = d' @ ''.'' @ m' @ ''.'' @ y' @ post'" "is_date_token d' m' y'"
    by blast
  from token_unique [OF this(1) assms(1) this(2)] s show ?case by simp
next
  case (Cons c w)
  have "match_date_at prev (c # w @ d @ ''.'' @ m @ ''.'' @ y @ post) = None"
  proof (rule ccontr)
    assume "match_date_at prev (c # w @ d @ ''.'' @ m @ ''.'' @ y @ post) \<noteq> None"
    then obtain d' m' y' where
      "match_date_at prev (c # w @ d @ ''.'' @ m @ ''.'' @ y @ post) = Some (d', m', y')"
      by auto
    from match_date_at_SomeD [OF this] obtain post' where
      p: "c # w @ d @ ''.'' @ m @ ''.'' @ y @ post = d' @ ''.'' @ m' @ ''.'' @ y' @ post'"
         "is_date_token d' m' y'"
      by blast
    from token_starts_with_digit [OF p(2)] p(1) have "is_digit c" by auto
    with Cons.prems show False by simp
  qed
  with Cons show ?case by simp
qed

lemma zfill_digits:
  assumes "list_all is_digit m" "length m = 1 \<or> length m = 2"
  shows "length (zfill 2 m) = 2 \<and> list_all is_digit (zfill 2 m) \<and>
         zfill 2 m = (if length m = 1 then CHR ''0'' # m else m)"
proof -
  have z: "is_digit (CHR ''0'')" by (simp add: is_digit_def cp_def)
  have "\<not> is_digit (CHR ''+'')" "\<not> is_digit (CHR ''-'')" by (simp_all add: is_digit_def cp_def)
  with assms z show ?thesis
    by (cases m) (auto simp: zfill_def numeral_2_eq_2)
qed


lemma parse_german_date_Some_iff:
  "parse_german_date inp = Some res \<longleftrightarrow>
     (\<exists>d m y. search_date None inp = Some (d, m, y) \<and>
        res = y @ ''-'' @ zfill 2 m @ ''-'' @ zfill 2 d)"
proof (cases inp)
  case Nil
  have "match_date_at None [] = None"
    by (simp add: match_date_at_def at_boundary_def)
  with Nil show ?thesis by (simp add: parse_german_date_def)
next
  case (Cons c cs)
  then show ?thesis
    by (auto simp: parse_german_date_def split: option.splits)
qed

lemma parse_german_date_pattern: "parse_german_date inp \<noteq> None \<longleftrightarrow> has_date_pattern inp"
proof
  assume "parse_german_date inp \<noteq> None"
  then obtain d m y where "search_date None inp = Some (d, m, y)"
    by (auto simp: parse_german_date_Some_iff)
  from search_date_SomeD [OF this] show "has_date_pattern inp"
    unfolding has_date_pattern_def boundary_before_None by blast
next
  assume "has_date_pattern inp"
  then obtain pre d m y post where
    p: "inp = pre @ d @ ''.'' @ m @ ''.'' @ y @ post" "is_date_token d m y"
       "boundary_before None pre" "post = [] \<or> \<not> is_word (hd post)"
    unfolding has_date_pattern_def boundary_before_None by blast
  from search_date_complete [OF p(2,4,3)] p(1) obtain g where "search_date None inp = Some g"
    by auto
  then show "parse_german_date inp \<noteq> None"
    by (cases g) (auto simp: parse_german_date_Some_iff)
qed

lemma parse_german_date_iso:
  assumes "parse_german_date inp = Some res"
  shows "\<exists>y mm dd. res = y @ ''-'' @ mm @ ''-'' @ dd \<and> length y = 4 \<and> length mm = 2 \<and>
           length dd = 2 \<and> list_all is_digit y \<and> list_all is_digit mm \<and> list_all is_digit dd"
proof -
  from assms obtain d m y where
    s: "search_date None inp = Some (d, m, y)" "res = y @ ''-'' @ zfill 2 m @ ''-'' @ zfill 2 d"
    by (auto simp: parse_german_date_Some_iff)
  from search_date_SomeD [OF s(1)] have t: "is_date_token d m y" by blast
  then have dm: "list_all is_digit m" "length m = 1 \<or> length m = 2"
    "list_all is_digit d" "length d = 1 \<or> length d = 2"
    by (simp_all add: is_date_token_def)
  from zfill_digits [OF dm(1,2)] zfill_digits [OF dm(3,4)]
  have "length (zfill 2 m) = 2 \<and> list_all is_digit (zfill 2 m)"
       "length (zfill 2 d) = 2 \<and> list_all is_digit (zfill 2 d)"
    by blast+
  with t s(2) show ?thesis
    unfolding is_date_token_def by blast
qed

lemma parse_german_date_weekday:
  assumes "list_all (\<lambda>c. \<not> is_digit c) w" "w = [] \<or> \<not> is_word (last w)" "is_date_token d m y"
  shows "parse_german_date (w @ d @ ''.'' @ m @ ''.'' @ y) =
           Some (y @ ''-'' @ (if length m = 1 then ''0'' @ m else m) @ ''-'' @
                 (if length d = 1 then ''0'' @ d else d))"
proof -
  from assms(2) have b: "boundary_before None w" by (simp add: boundary_before_None)
  have "search_date None (w @ d @ ''.'' @ m @ ''.'' @ y @ []) = Some (d, m, y)"
    by (rule search_date_weekday_prefix [OF assms(3) _ assms(1) b]) simp
  then have "parse_german_date (w @ d @ ''.'' @ m @ ''.'' @ y) =
               Some (y @ ''-'' @ zfill 2 m @ ''-'' @ zfill 2 d)"
    by (simp add: parse_german_date_Some_iff)
  moreover from assms(3) have dm: "list_all is_digit m" "length m = 1 \<or> length m = 2"
    "list_all is_digit d" "length d = 1 \<or> length d = 2"
    by (simp_all add: is_date_token_def)
  from zfill_digits [OF dm(1,2)] zfill_digits [OF dm(3,4)]
  have "zfill 2 m = (if length m = 1 then ''0'' @ m else m)"
    "zfill 2 d = (if length d = 1 then ''0'' @ d else d)"
    by simp_all
  ultimately show ?thesis by simp
qed

lemma header_without_date_skipped:
  assumes "h_text h = Inr (Some t)" "parse_german_date (strip t) = None"
  shows "header_loop pg (h # hs) acc = header_loop pg hs acc"
  using assms by (simp add: Let_def)

text \<open>
  Claim C9. A text made of a prefix without digits that does not end in a word
  character (a weekday name with its comma and blank, or nothing) followed by a date
  token \<open>D.M.YYYY\<close> or \<open>DD.MM.YYYY\<close> is parsed to \<open>YYYY-MM-DD\<close>, a single-digit day or
  month padded with a zero; so are the specification's two examples. The parser
  succeeds exactly on the texts that hold a date token, its result always has the shape
  \<open>YYYY-MM-DD\<close>, and a header whose stripped text holds none is passed over: the loop
  goes on with the slots it had.
\<close>

theorem german_date_parsing:
  "(list_all (\<lambda>c. \<not> is_digit c) w \<and> (w = [] \<or> \<not> is_word (last w)) \<and> is_date_token d m y \<longrightarrow>
      parse_german_date (w @ d @ ''.'' @ m @ ''.'' @ y) =
        Some (y @ ''-'' @ (if length m = 1 then ''0'' @ m else m) @ ''-'' @
              (if length d = 1 then ''0'' @ d else d))) \<and>
   parse_german_date ''Dienstag, 18.11.2025'' = Some ''2025-11-18'' \<and>
   parse_german_date ''5.3.2026'' = Some ''2026-03-05'' \<and>
   (parse_german_date inp \<noteq> None \<longleftrightarrow> has_date_pattern inp) \<and>
   (parse_german_date inp = Some res \<longrightarrow>
      (\<exists>y mm dd. res = y @ ''-'' @ mm @ ''-'' @ dd \<and> length y = 4 \<and> length mm = 2 \<and>
         length dd = 2 \<and> list_all is_digit y \<and> list_all is_digit mm \<and> list_all is_digit dd)) \<and>
   (h_text h = Inr (Some t) \<and> \<not> has_date_pattern (strip t) \<longrightarrow>
      header_loop pg (h # hs) acc = header_loop pg hs acc)"
proof -
  have a: "parse_german_date ''Dienstag, 18.11.2025'' = Some ''2025-11-18''"
    by code_simp
  have b: "parse_german_date ''5.3.2026'' = Some ''2026-03-05''"
    by code_simp
  have c: "h_text h = Inr (Some t) \<and> \<not> has_date_pattern (strip t) \<longrightarrow>
      header_loop pg (h # hs) acc = header_loop pg hs acc"
    using header_without_date_skipped [of h t pg hs acc] parse_german_date_pattern [of "strip t"]
    by blast
  from a b c parse_german_date_weekday [of w d m y] parse_german_date_pattern [of inp]
    parse_german_date_iso [of inp res]
  show ?thesis by blast
qed

theorem german_date_parsing_witness:
  "parse_german_date (''Mittwoch, '' @ ''9'' @ ''.'' @ ''12'' @ ''.'' @ ''2026'') = Some ''2026-12-09'' \<and>
   has_date_pattern ''Termin am 19.11.2025 frei'' \<and>
   parse_german_date ''Termin am 19.11.2025 frei'' = Some ''2025-11-19'' \<and>
   \<not> has_date_pattern (strip ''Heute'') \<and>
   header_loop morning_page [undated_header] [] = ([], None)"
proof -
  have w: "list_all (\<lambda>c. \<not> is_digit c) ''Mittwoch, ''" "\<not> is_word (last ''Mittwoch, '')"
    by (simp_all add: is_digit_def is_word_def cp_def)
  have t: "is_date_token ''9'' ''12'' ''2026''"
    by (simp add: is_date_token_def is_digit_def cp_def)
  have p: "parse_german_date ''Termin am 19.11.2025 frei'' = Some ''2025-11-19''"
    by code_simp
  have n: "parse_german_date (strip ''Heute'') = None"
    by code_simp
  have h: "h_text undated_header = Inr (Some ''Heute'')"
    by (simp add: undated_header_def)
  note th = german_date_parsing [of "''Mittwoch, ''" "''9''" "''12''" "''2026''"]
  from th [of "''Termin am 19.11.2025 frei''" "''2025-11-19''" undated_header "''Heute''"
      morning_page "[]" "[]"] w t p
    th [of "strip ''Heute''" "[]" undated_header "''Heute''" morning_page "[]" "[]"] n h
  show ?thesis by simp
qed

section \<open>The due check\<close>

lemma timedelta_hours_representable:
  "representable h \<Longrightarrow> timedelta_hours h = Inr (hours h)"
  by (simp add: representable_def timedelta_hours_def hours_def)

lemma due_loop_filter:
  assumes "\<forall>s \<in> set xs. representable (interval_hours s)"
  shows "due_loop now xs acc = Inr (acc @ filter (is_due now) xs)"
  using assms
proof (induction xs arbitrary: acc)
  case Nil
  then show ?case by simp
next
  case (Cons x xs)
  then have r: "timedelta_hours (interval_hours x) = Inr (hours (interval_hours x))"
    by (simp add: timedelta_hours_representable)
  from Cons have ih: "\<And>acc. due_loop now xs acc = Inr (acc @ filter (is_due now) xs)"
    by simp
  show ?case
    by (cases "last_checked_at x") (simp_all add: r ih is_due_def [of now x])
qed

text \<open>
  Claim C1. When every configured interval is one a \<open>timedelta\<close> can hold, the due
  check returns a list, and a subscription is in it if and only if it is a row of the
  store, is active, and either was never checked or the time since \<open>last_checked_at\<close>
  is at least \<open>interval_hours\<close> hours. An active subscription checked exactly that
  long ago is due; one checked a microsecond less long ago is not.
\<close>

theorem due_iff_interval_elapsed:
  assumes "\<forall>s \<in> set (subscriptions d). representable (interval_hours s)"
  shows "\<exists>due. get_subscriptions_due_for_check now d = Inr due \<and>
           (\<forall>s. s \<in> set due \<longleftrightarrow>
                  s \<in> set (subscriptions d) \<and> active s \<and>
                  (last_checked_at s = None \<or>
                   (\<exists>t. last_checked_at s = Some t \<and> hours (interval_hours s) \<le> now - t))) \<and>
           (\<forall>s \<in> set (subscriptions d).
              active s \<and> last_checked_at s = Some (now - hours (interval_hours s)) \<longrightarrow>
              s \<in> set due) \<and>
           (\<forall>s \<in> set (subscriptions d).
              last_checked_at s = Some (now - (hours (interval_hours s) - 1)) \<longrightarrow> s \<notin> set due)"
proof -
  let ?due = "filter (is_due now) (filter active (subscriptions d))"
  from assms have "\<forall>s \<in> set (filter active (subscriptions d)). representable (interval_hours s)"
    by simp
  from due_loop_filter [OF this, of now "[]"]
  have "get_subscriptions_due_for_check now d = Inr ?due"
    by (simp add: get_subscriptions_due_for_check_def)
  moreover have "\<forall>s. s \<in> set ?due \<longleftrightarrow>
                  s \<in> set (subscriptions d) \<and> active s \<and>
                  (last_checked_at s = None \<or>
                   (\<exists>t. last_checked_at s = Some t \<and> hours (interval_hours s) \<le> now - t))"
    by (auto simp: is_due_def)
  moreover have "\<forall>s \<in> set (subscriptions d).
              active s \<and> last_checked_at s = Some (now - hours (interval_hours s)) \<longrightarrow>
              s \<in> set ?due"
    by (auto simp: is_due_def)
  moreover have "\<forall>s \<in> set (subscriptions d).
              last_checked_at s = Some (now - (hours (interval_hours s) - 1)) \<longrightarrow> s \<notin> set ?due"
    by (auto simp: is_due_def)
  ultimately show ?thesis by blast
qed

theorem due_iff_interval_elapsed_witness:
  "\<exists>due. get_subscriptions_due_for_check 7200000000 due_db = Inr due \<and>
     watch 1 True 1 None \<in> set due \<and>
     watch 2 True 1 (Some 3600000000) \<in> set due \<and>
     watch 3 True 1 (Some 3600000001) \<notin> set due \<and>
     watch 4 False 1 None \<notin> set due"
proof -
  have r: "\<forall>s \<in> set (subscriptions due_db). representable (interval_hours s)"
    by (simp add: due_db_def watch_def representable_def)
  from due_iff_interval_elapsed [OF r, of 7200000000] obtain due where
    d: "get_subscriptions_due_for_check 7200000000 due_db = Inr due"
       "\<forall>s. s \<in> set due \<longleftrightarrow>
                  s \<in> set (subscriptions due_db) \<and> active s \<and>
                  (last_checked_at s = None \<or>
                   (\<exists>t. last_checked_at s = Some t \<and> hours (interval_hours s) \<le> 7200000000 - t))"
    by blast
  have "watch 1 True 1 None \<in> set due"
    by (simp add: d(2) due_db_def watch_def)
  moreover have "watch 2 True 1 (Some 3600000000) \<in> set due"
    by (simp add: d(2) due_db_def watch_def hours_def)
  moreover have "watch 3 True 1 (Some 3600000001) \<notin> set due"
    by (simp add: d(2) due_db_def watch_def hours_def)
  moreover have "watch 4 False 1 None \<notin> set due"
    by (simp add: d(2) due_db_def watch_def)
  ultimately show ?thesis using d(1) by blast
qed

section \<open>One subscription per user and service\<close>

lemma find_SomeD: "find P xs = Some x \<Longrightarrow> x \<in> set xs \<and> P x"
  by (induction xs) (auto split: if_splits)

lemma find_unique:
  assumes "x \<in> set xs" "P x" "\<forall>y \<in> set xs. y \<noteq> x \<longrightarrow> \<not> P y"
  shows "find P xs = Some x"
  using assms by (induction xs) auto

lemma distinct_map_eq:
  "distinct (map f xs) \<Longrightarrow> x \<in> set xs \<Longrightarrow> y \<in> set xs \<Longrightarrow> f x = f y \<Longrightarrow> x = y"
  by (auto simp: distinct_map dest: inj_onD)

lemma fold_max_ge: "a \<le> fold max xs (a::int) \<and> (\<forall>x \<in> set xs. x \<le> fold max xs a)"
proof (induction xs arbitrary: a)
  case Nil
  then show ?case by simp
next
  case (Cons x xs)
  from Cons [of "max x a"] show ?case by auto
qed

lemma next_id_fresh: "i \<in> set ids \<Longrightarrow> i < next_id ids"
  using fold_max_ge [of 0 ids] by (auto simp: next_id_def)

lemma next_id_notin: "next_id ids \<notin> set ids"
  using next_id_fresh [of "next_id ids" ids] by auto

lemma reactivate_map:
  assumes "distinct (map sub_id xs)" "e \<in> set xs"
  shows "map (\<lambda>x. if sub_id x = sub_id e
                  then x\<lparr>active := True, interval_hours := ih, quantity := q, notify_telegram := nt\<rparr>
                  else x) xs =
         map (\<lambda>x. if x = e then reactivated ih q nt e else x) xs"
proof (rule map_cong [OF refl])
  fix x assume x: "x \<in> set xs"
  have "sub_id x = sub_id e \<longleftrightarrow> x = e"
    using distinct_map_eq [OF assms(1) x assms(2)] by blast
  then show "(if sub_id x = sub_id e
              then x\<lparr>active := True, interval_hours := ih, quantity := q, notify_telegram := nt\<rparr>
              else x) = (if x = e then reactivated ih q nt e else x)"
    by (auto simp: reactivated_def)
qed

lemma reactivated_fields [simp]:
  "sub_id (reactivated ih q nt e) = sub_id e"
  "watch_key (reactivated ih q nt e) = watch_key e"
  by (simp_all add: reactivated_def watch_key_def)

lemma map_reactivated_same:
  "map sub_id (map (\<lambda>x. if x = e then reactivated ih q nt e else x) xs) = map sub_id xs"
  "map watch_key (map (\<lambda>x. if x = e then reactivated ih q nt e else x) xs) = map watch_key xs"
  by (induction xs) auto

lemma create_existing:
  assumes ids: "distinct (map sub_id (subscriptions d))"
    and keys: "distinct (map watch_key (subscriptions d))"
    and e: "e \<in> set (subscriptions d)" "watch_key e = (uid, sid)"
  shows "create_subscription d uid sid ih q nt =
           (if active e then (Some e, d)
            else (Some (reactivated ih q nt e),
                  d\<lparr>subscriptions :=
                       map (\<lambda>x. if x = e then reactivated ih q nt e else x) (subscriptions d)\<rparr>))"
proof -
  have k: "\<forall>y \<in> set (subscriptions d). y \<noteq> e \<longrightarrow> watch_key y \<noteq> watch_key e"
    using distinct_map_eq [OF keys _ e(1)] by blast
  have i: "\<forall>y \<in> set (subscriptions d). y \<noteq> e \<longrightarrow> sub_id y \<noteq> sub_id e"
    using distinct_map_eq [OF ids _ e(1)] by blast
  have f: "find (\<lambda>x. sub_user_id x = uid \<and> sub_service_id x = sid) (subscriptions d) = Some e"
  proof (rule find_unique [OF e(1)])
    show "sub_user_id e = uid \<and> sub_service_id e = sid"
      using e(2) by (simp add: watch_key_def)
    show "\<forall>y \<in> set (subscriptions d). y \<noteq> e \<longrightarrow>
            \<not> (sub_user_id y = uid \<and> sub_service_id y = sid)"
      using k e(2) by (simp add: watch_key_def)
  qed
  have g: "find (\<lambda>x. sub_id x = sub_id e) (subscriptions d) = Some e"
    using find_unique [OF e(1), of "\<lambda>x. sub_id x = sub_id e"] i by blast
  let ?xs = "map (\<lambda>x. if x = e then reactivated ih q nt e else x) (subscriptions d)"
  have h: "find (\<lambda>x. sub_id x = sub_id e) ?xs = Some (reactivated ih q nt e)"
  proof (rule find_unique)
    show "reactivated ih q nt e \<in> set ?xs" using e(1) by auto
    show "sub_id (reactivated ih q nt e) = sub_id e" by simp
    show "\<forall>y \<in> set ?xs. y \<noteq> reactivated ih q nt e \<longrightarrow> sub_id y \<noteq> sub_id e"
      using i by auto
  qed
  show ?thesis
    by (simp add: create_subscription_def f g h reactivate_map [OF ids e(1)] Let_def)
qed

lemma create_new:
  assumes "find (\<lambda>x. sub_user_id x = uid \<and> sub_service_id x = sid) (subscriptions d) = None"
    and "create_subscription d uid sid ih q nt = (r, d')"
  shows "d' = d \<or>
         (\<exists>s. subscriptions d' = subscriptions d @ [s] \<and> watch_key s = (uid, sid) \<and>
               sub_id s = next_id (map sub_id (subscriptions d)))"
  using assms by (auto simp: create_subscription_def Let_def watch_key_def split: if_splits)

text \<open>
  Claim C10. On a store whose subscription rows have distinct ids and distinct
  (user, service) pairs, \<open>create_subscription\<close> leaves both distinct. When a row for the
  pair exists, no row is added: an active row is returned and the store is unchanged;
  an inactive row is made active with the interval, quantity and notification flag of
  the call, is returned, and no other row changes.
\<close>

theorem create_subscription_keeps_one_row:
  assumes ids: "distinct (map sub_id (subscriptions d))"
    and keys: "distinct (map watch_key (subscriptions d))"
    and run: "create_subscription d uid sid ih q nt = (r, d')"
  shows "distinct (map sub_id (subscriptions d')) \<and>
         distinct (map watch_key (subscriptions d')) \<and>
         (\<forall>e \<in> set (subscriptions d). watch_key e = (uid, sid) \<longrightarrow>
            length (subscriptions d') = length (subscriptions d) \<and>
            (if active e then d' = d \<and> r = Some e
             else r = Some (reactivated ih q nt e) \<and>
                  subscriptions d' =
                    map (\<lambda>x. if x = e then reactivated ih q nt e else x) (subscriptions d)))"
proof (cases "find (\<lambda>x. sub_user_id x = uid \<and> sub_service_id x = sid) (subscriptions d)")
  case None
  then have no: "\<forall>e \<in> set (subscriptions d). watch_key e \<noteq> (uid, sid)"
    by (auto simp: find_None_iff watch_key_def)
  from create_new [OF None run] show ?thesis
  proof
    assume "d' = d"
    with ids keys no show ?thesis by simp
  next
    assume "\<exists>s. subscriptions d' = subscriptions d @ [s] \<and> watch_key s = (uid, sid) \<and>
               sub_id s = next_id (map sub_id (subscriptions d))"
    then obtain s where s: "subscriptions d' = subscriptions d @ [s]" "watch_key s = (uid, sid)"
      "sub_id s = next_id (map sub_id (subscriptions d))" by blast
    from s(3) have "sub_id s \<notin> set (map sub_id (subscriptions d))"
      by (simp only: next_id_notin not_False_eq_True)
    with ids s(1) have d1: "distinct (map sub_id (subscriptions d'))" by simp
    from s(2) no have "watch_key s \<notin> set (map watch_key (subscriptions d))"
      by auto
    with keys s(1) have d2: "distinct (map watch_key (subscriptions d'))" by simp
    from d1 d2 no show ?thesis by simp
  qed
next
  case (Some x)
  then have x: "x \<in> set (subscriptions d)" "watch_key x = (uid, sid)"
    by (auto simp: watch_key_def dest: find_SomeD)
  have same: "e = x" if "e \<in> set (subscriptions d)" "watch_key e = (uid, sid)" for e
    using distinct_map_eq [OF keys that(1) x(1)] that(2) x(2) by simp
  let ?xs = "map (\<lambda>y. if y = x then reactivated ih q nt x else y) (subscriptions d)"
  from create_existing [OF ids keys x, of ih q nt] run
  have res: "(r, d') = (if active x then (Some x, d)
                        else (Some (reactivated ih q nt x), d\<lparr>subscriptions := ?xs\<rparr>))"
    by simp
  have sub: "subscriptions d' = (if active x then subscriptions d else ?xs)"
    using res by (simp split: if_splits)
  have m: "map sub_id (subscriptions d') = map sub_id (subscriptions d)"
    "map watch_key (subscriptions d') = map watch_key (subscriptions d)"
    by (simp_all add: sub map_reactivated_same del: map_map)
  have d1: "distinct (map sub_id (subscriptions d'))"
    by (simp only: m ids)
  have d2: "distinct (map watch_key (subscriptions d'))"
    by (simp only: m keys)
  have len: "length (subscriptions d') = length (subscriptions d)"
    using arg_cong [OF m(1), of length] by (simp only: length_map)
  have at_x: "if active x then d' = d \<and> r = Some x
             else r = Some (reactivated ih q nt x) \<and> subscriptions d' = ?xs"
    using res by (simp split: if_splits)
  have "\<forall>e \<in> set (subscriptions d). watch_key e = (uid, sid) \<longrightarrow>
            length (subscriptions d') = length (subscriptions d) \<and>
            (if active e then d' = d \<and> r = Some e
             else r = Some (reactivated ih q nt e) \<and>
                  subscriptions d' =
                    map (\<lambda>x. if x = e then reactivated ih q nt e else x) (subscriptions d))"
  proof (intro ballI impI)
    fix e assume "e \<in> set (subscriptions d)" "watch_key e = (uid, sid)"
    then have "e = x" by (rule same)
    then show "length (subscriptions d') = length (subscriptions d) \<and>
            (if active e then d' = d \<and> r = Some e
             else r = Some (reactivated ih q nt e) \<and>
                  subscriptions d' =
                    map (\<lambda>x. if x = e then reactivated ih q nt e else x) (subscriptions d))"
      using len at_x by (simp only:)
  qed
  with d1 d2 show ?thesis by blast
qed


theorem create_subscription_keeps_one_row_witness:
  "distinct (map watch_key (subscriptions (snd (create_subscription two_watch_db 1 2 6 3 False)))) \<and>
   length (subscriptions (snd (create_subscription two_watch_db 1 2 6 3 False))) = 2 \<and>
   fst (create_subscription two_watch_db 1 2 6 3 False) =
     Some (reactivated 6 3 False (watch 2 False 1 None)) \<and>
   create_subscription two_watch_db 1 1 6 3 False = (Some (watch 1 True 1 None), two_watch_db)"
proof -
  have ids: "distinct (map sub_id (subscriptions two_watch_db))"
    by (simp add: two_watch_db_def watch_def)
  have keys: "distinct (map watch_key (subscriptions two_watch_db))"
    by (simp add: two_watch_db_def watch_def watch_key_def)
  have e2: "watch 2 False 1 None \<in> set (subscriptions two_watch_db)"
    "watch_key (watch 2 False 1 None) = (1, 2)" "\<not> active (watch 2 False 1 None)"
    by (simp_all add: two_watch_db_def watch_def watch_key_def)
  have e1: "watch 1 True 1 None \<in> set (subscriptions two_watch_db)"
    "watch_key (watch 1 True 1 None) = (1, 1)" "active (watch 1 True 1 None)"
    by (simp_all add: two_watch_db_def watch_def watch_key_def)
  have len: "length (subscriptions two_watch_db) = 2"
    by (simp add: two_watch_db_def)
  obtain r2 d2 where run2: "create_subscription two_watch_db 1 2 6 3 False = (r2, d2)"
    by (cases "create_subscription two_watch_db 1 2 6 3 False")
  obtain r1 d1 where run1: "create_subscription two_watch_db 1 1 6 3 False = (r1, d1)"
    by (cases "create_subscription two_watch_db 1 1 6 3 False")
  from create_subscription_keeps_one_row [OF ids keys run2] e2 len
  have "distinct (map watch_key (subscriptions d2)) \<and> length (subscriptions d2) = 2 \<and>
        r2 = Some (reactivated 6 3 False (watch 2 False 1 None))"
    by auto
  moreover from create_subscription_keeps_one_row [OF ids keys run1] e1
  have "d1 = two_watch_db \<and> r1 = Some (watch 1 True 1 None)"
    by auto
  ultimately show ?thesis
    by (simp add: run1 run2)
qed

section \<open>Failures of the probe\<close>

lemma check_appointments_closes_browser:
  "launch s = None \<Longrightarrow> snd (check_appointments s cat svc q) = True"
  by (simp add: check_appointments_def try_body_def Let_def split: option.splits sum.splits)

lemma check_appointments_classifies:
  assumes "launch s = None" "new_page s = None" "close s = None"
  shows "\<exists>r. check_appointments s cat svc q = (Inr r, True)"
  using assms
  by (simp add: check_appointments_def try_body_def handle_exception_def Let_def
      split: option.splits sum.splits)

text \<open>
  Claim C8. A failure after the page exists is returned as an \<open>error\<close> result and the
  browser is closed: so for a timeout during navigation. A failure of the launch, or of
  opening the page, reaches a handler that reads \<open>page\<close> before it is bound: the
  handler raises \<open>UnboundLocalError\<close>, and \<open>check_appointments\<close> raises instead of
  returning a result.
\<close>

theorem launch_failure_leaves_check_appointments:
  "check_appointments ((smooth_session bare_page 5)\<lparr>launch := Some launch_error\<rparr>)
       ''Kategorie'' ''Abholung'' 1 = (Inl unbound_page, False) \<and>
   check_appointments ((smooth_session bare_page 5)\<lparr>new_page := Some launch_error\<rparr>)
       ''Kategorie'' ''Abholung'' 1 = (Inl unbound_page, True) \<and>
   exn_class unbound_page = UnboundLocalError \<and>
   check_appointments ((smooth_session bare_page 5)\<lparr>navigate := Some navigation_timeout\<rparr>)
       ''Kategorie'' ''Abholung'' 1 =
     (Inr \<lparr>status = ''error'', available = False, appointments = [],
           screenshot_path = Some ''screenshots/error_timeout_20251118_140000.png'',
           error_message = Some ''Timeout: Locator.click: Timeout 10000ms exceeded.'',
           checked_at = 5, service_name = ''Abholung'', category_name = ''Kategorie''\<rparr>, True)"
  by code_simp

section \<open>Recording a probe\<close>

text \<open>
  Claim C3. An hourly subscription last checked at time 0 is due one hour later. When
  its probe raises (here through the failed launch), the \<open>except\<close> clause stores an
  \<open>ERROR\<close> check and leaves \<open>last_checked_at\<close> at 0, so five minutes later the
  subscription is due again. A probe whose failure is returned as a result (the timeout
  during navigation) does set \<open>last_checked_at\<close> to the result's \<open>checked_at\<close>.
\<close>

theorem raised_probe_leaves_last_checked_at:
  "get_subscriptions_due_for_check 3600000000 hourly_db = Inr [watch 1 True 1 (Some 0)] \<and>
   run_subscription_check ((smooth_session bare_page 3600000007)\<lparr>launch := Some launch_error\<rparr>)
       3600000009 hourly_db 1 =
     (Some \<lparr>check_id = 1, check_subscription_id = 1, check_status = ERROR,
            check_available = False, appointment_count = 0, check_screenshot_path = None,
            check_error_message = Some (exn_str unbound_page), check_checked_at = 3600000009\<rparr>,
      hourly_db\<lparr>checks :=
        [\<lparr>check_id = 1, check_subscription_id = 1, check_status = ERROR,
          check_available = False, appointment_count = 0, check_screenshot_path = None,
          check_error_message = Some (exn_str unbound_page), check_checked_at = 3600000009\<rparr>]\<rparr>) \<and>
   map last_checked_at
     (subscriptions (snd (run_subscription_check
        ((smooth_session bare_page 3600000007)\<lparr>launch := Some launch_error\<rparr>)
        3600000009 hourly_db 1))) = [Some 0] \<and>
   get_subscriptions_due_for_check 3900000000
     (snd (run_subscription_check
        ((smooth_session bare_page 3600000007)\<lparr>launch := Some launch_error\<rparr>)
        3600000009 hourly_db 1)) = Inr [watch 1 True 1 (Some 0)] \<and>
   map last_checked_at
     (subscriptions (snd (run_subscription_check
        ((smooth_session bare_page 3600000007)\<lparr>navigate := Some navigation_timeout\<rparr>)
        3600000009 hourly_db 1))) = [Some 3600000007]"
  by code_simp

section \<open>The scheduler tick\<close>

lemma zip_maps_mem: "(i, b) \<in> set (zip (map f xs) (map g xs)) \<longleftrightarrow> (\<exists>x \<in> set xs. f x = i \<and> g x = b)"
  by (induction xs) auto

lemma is_active_in_find:
  "is_active_in d i \<Longrightarrow> \<exists>sub. find (\<lambda>x. sub_id x = i \<and> active x) (subscriptions d) = Some sub"
proof -
  assume "is_active_in d i"
  then have "\<exists>x \<in> set (subscriptions d). sub_id x = i \<and> active x"
    by (simp add: is_active_in_def zip_maps_mem)
  then have "find (\<lambda>x. sub_id x = i \<and> active x) (subscriptions d) \<noteq> None"
    by (auto simp: find_None_iff)
  then show ?thesis by auto
qed

lemma map_touch_last_checked:
  "map sub_id (map (\<lambda>x. if sub_id x = k then x\<lparr>last_checked_at := v\<rparr> else x) xs) = map sub_id xs"
  "map active (map (\<lambda>x. if sub_id x = k then x\<lparr>last_checked_at := v\<rparr> else x) xs) = map active xs"
  by (induction xs) auto

lemma run_check_body_appends:
  assumes "run_check_body s d sub = Inr (c, d')"
  shows "checks d' = checks d @ [c] \<and> check_subscription_id c = sub_id sub \<and>
         map sub_id (subscriptions d') = map sub_id (subscriptions d) \<and>
         map active (subscriptions d') = map active (subscriptions d)"
  using assms unfolding run_check_body_def Let_def
  by (auto split: option.splits sum.splits simp: map_touch_last_checked simp del: map_map)

lemma save_error_state_appends:
  assumes "i \<in> set (map sub_id (subscriptions d))"
  shows "\<exists>c. save_error_state t d i e = (Some c, d\<lparr>checks := checks d @ [c]\<rparr>) \<and>
             check_subscription_id c = i"
  using assms by (simp add: save_error_state_def Let_def)

lemma run_subscription_check_appends:
  assumes "is_active_in d i"
  shows "\<exists>c d'. run_subscription_check s t d i = (Some c, d') \<and> checks d' = checks d @ [c] \<and>
           check_subscription_id c = i \<and>
           map sub_id (subscriptions d') = map sub_id (subscriptions d) \<and>
           map active (subscriptions d') = map active (subscriptions d)"
proof -
  from is_active_in_find [OF assms] obtain sub where
    f: "find (\<lambda>x. sub_id x = i \<and> active x) (subscriptions d) = Some sub" by blast
  from find_SomeD [OF f] have sub: "sub \<in> set (subscriptions d)" "sub_id sub = i" by auto
  show ?thesis
  proof (cases "run_check_body s d sub")
    case (Inl e)
    from sub have "i \<in> set (map sub_id (subscriptions d))"
      by auto
    from save_error_state_appends [OF this, of t e] obtain c where
      "save_error_state t d i e = (Some c, d\<lparr>checks := checks d @ [c]\<rparr>)" "check_subscription_id c = i"
      by blast
    with f Inl show ?thesis by (simp add: run_subscription_check_def)
  next
    case (Inr p)
    obtain c d' where p: "p = (c, d')" by (cases p)
    from run_check_body_appends [of s d sub c d'] Inr p sub(2) f show ?thesis
      by (simp add: run_subscription_check_def)
  qed
qed

text \<open>
  Were the due rows readable, the loop would call \<open>run_subscription_check\<close> for each
  of them and store one check per row.
\<close>

lemma check_loop_live:
  "\<forall>s \<in> set due. is_active_in d (sub_id s) \<Longrightarrow>
   \<exists>d' cs. check_loop env (map Live due) d probed = (d', probed @ map sub_id due, None) \<and>
            checks d' = checks d @ cs \<and> map check_subscription_id cs = map sub_id due"
proof (induction due arbitrary: d probed)
  case Nil
  then show ?case by simp
next
  case (Cons x due)
  then have "is_active_in d (sub_id x)" by simp
  from run_subscription_check_appends [OF this, of "pe_session (env (sub_id x))" "pe_err_now (env (sub_id x))"]
  obtain c d1 where
    r: "run_subscription_check (pe_session (env (sub_id x))) (pe_err_now (env (sub_id x))) d (sub_id x) = (Some c, d1)"
       "checks d1 = checks d @ [c]" "check_subscription_id c = sub_id x"
       "map sub_id (subscriptions d1) = map sub_id (subscriptions d)"
       "map active (subscriptions d1) = map active (subscriptions d)"
    by blast
  from r(4,5) Cons.prems have "\<forall>s \<in> set due. is_active_in d1 (sub_id s)"
    by (simp add: is_active_in_def)
  from Cons.IH [OF this, of "probed @ [sub_id x]"] obtain d' cs where
    l: "check_loop env (map Live due) d1 (probed @ [sub_id x]) =
          (d', (probed @ [sub_id x]) @ map sub_id due, None)"
       "checks d' = checks d1 @ cs" "map check_subscription_id cs = map sub_id due"
    by blast
  have "check_loop env (map Live (x # due)) d probed = (d', probed @ map sub_id (x # due), None) \<and>
        checks d' = checks d @ (c # cs) \<and>
        map check_subscription_id (c # cs) = map sub_id (x # due)"
    using r(1,2,3) l by simp
  then show ?case by blast
qed

text \<open>The rows the tick gets are detached, and the first of them ends the loop.\<close>

lemma check_loop_detached:
  "check_loop env (Detached x # rest) d probed = (d, probed, Some detached_error)"
  by simp

lemma tick_probes_nothing: "check_all_due_subscriptions now env d = (d, [])"
proof (cases "get_subscriptions_due_for_check now d")
  case (Inl e)
  then show ?thesis by (simp add: check_all_due_subscriptions_def)
next
  case (Inr due)
  then show ?thesis
    by (cases due) (simp_all add: check_all_due_subscriptions_def)
qed

text \<open>
  Claim C7. Three subscriptions are due, and the probe of the second would raise during
  navigation. The tick reads \<open>subscription.id\<close> of the first row, which is detached:
  the read raises in the \<open>try\<close> block and again in the \<open>except\<close> clause, and that
  leaves the loop. No subscription is probed and the store is as before, also when no
  probe would fail. On readable rows the same loop probes all three.
\<close>

theorem detached_rows_abort_the_tick:
  "get_subscriptions_due_for_check 0 three_db = Inr (subscriptions three_db) \<and>
   map sub_id (subscriptions three_db) = [1, 2, 3] \<and>
   check_loop tick_env (map Detached (subscriptions three_db)) three_db [] =
     (three_db, [], Some detached_error) \<and>
   check_all_due_subscriptions 0 tick_env three_db = (three_db, []) \<and>
   check_all_due_subscriptions 0 (\<lambda>i. \<lparr>pe_session = smooth_session bare_page 10, pe_err_now = 99\<rparr>)
     three_db = (three_db, []) \<and>
   fst (snd (check_loop tick_env (map Live (subscriptions three_db)) three_db [])) = [1, 2, 3]"
  by code_simp

section \<open>Notifications\<close>





end
